theory Spec2Isabelle
  imports Complex_Main "HOL-Library.AList"
begin

section \<open>Python strings\<close>

text \<open>
  A Python \<^verbatim>\<open>str\<close> is a \<^typ>\<open>string\<close>, each character standing for the code point
  of its number (the code points below 256). The script uses three string operations:
  the substring test \<^verbatim>\<open>sub in s\<close>, \<^verbatim>\<open>s.strip()\<close> and \<^verbatim>\<open>re.search\<close> with
  one fixed pattern shape.
\<close>

fun startswith :: "string \<Rightarrow> string \<Rightarrow> bool" where
  "startswith s [] = True"
| "startswith [] (p # ps) = False"
| "startswith (c # cs) (p # ps) = (c = p \<and> startswith cs ps)"

text \<open>\<^verbatim>\<open>sub in s\<close>: \<open>sub\<close> occurs in \<open>s\<close> as a contiguous run.\<close>

fun py_in :: "string \<Rightarrow> string \<Rightarrow> bool" where
  "py_in sub [] = (sub = [])"
| "py_in sub (c # cs) = (startswith (c # cs) sub \<or> py_in sub cs)"

text \<open>
  The characters \<^verbatim>\<open>str.strip()\<close> removes are those of \<^verbatim>\<open>str.isspace\<close>: tab, line
  feed, vertical tab, form feed, carriage return (9 to 13), the four separators 0x1C to
  0x1F, the space (32), the next-line character U+0085 (133) and the no-break space
  U+00A0 (160).
\<close>

definition isspace :: "char \<Rightarrow> bool" where
  "isspace c =
    (let n = of_char c :: nat
     in (9 \<le> n \<and> n \<le> 13) \<or> (28 \<le> n \<and> n \<le> 32) \<or> n = 133 \<or> n = 160)"

definition py_strip :: "string \<Rightarrow> string" where
  "py_strip s = rev (dropWhile isspace (rev (dropWhile isspace s)))"

section \<open>Tables\<close>

text \<open>
  A cell of a \<^verbatim>\<open>DataFrame\<close> is missing (\<^verbatim>\<open>NaN\<close> or \<^verbatim>\<open>None\<close>), a string or a number.
  A frame with single-level columns is its list of column labels and its rows in order;
  every row holds one cell per column. Column labels may repeat, as they do in pandas.
\<close>

datatype cell = Missing | Str string | Num real

record dataframe =
  columns :: "string list"
  rows :: "cell list list"

text \<open>\<^verbatim>\<open>df.empty\<close>: one of the two axes has length 0. \<^verbatim>\<open>len(df)\<close> is the number of rows.\<close>

definition df_empty :: "dataframe \<Rightarrow> bool" where
  "df_empty df = (columns df = [] \<or> rows df = [])"

definition df_len :: "dataframe \<Rightarrow> nat" where
  "df_len df = length (rows df)"

text \<open>
  \<^verbatim>\<open>df[c]\<close> for a label \<open>c\<close> of the frame: the cells of that column, top to bottom.
  Every read in the script stands under the guard \<^verbatim>\<open>c in df.columns\<close>. Where a label
  occurs several times pandas hands back a frame rather than a series; the model reads
  the first column of that label.
\<close>

definition row_cell :: "string list \<Rightarrow> cell list \<Rightarrow> string \<Rightarrow> cell" where
  "row_cell cols r c = (case map_of (zip cols r) c of Some v \<Rightarrow> v | None \<Rightarrow> Missing)"

definition getitem :: "dataframe \<Rightarrow> string \<Rightarrow> cell list" where
  "getitem df c = map (\<lambda>r. row_cell (columns df) r c) (rows df)"

text \<open>
  \<^verbatim>\<open>df[c] = values\<close> with one value per row: every column labelled \<open>c\<close> takes the
  values; when there is none, a new column \<open>c\<close> is appended on the right. The script
  mutates the frame it was given and returns it; the model returns the new frame.
\<close>

definition setitem :: "dataframe \<Rightarrow> string \<Rightarrow> cell list \<Rightarrow> dataframe" where
  "setitem df c vs =
    (if c \<in> set (columns df)
     then df\<lparr>rows := map (\<lambda>(r, v). map (\<lambda>(n, x). if n = c then v else x) (zip (columns df) r))
                         (zip (rows df) vs)\<rparr>
     else \<lparr>columns = columns df @ [c], rows = map (\<lambda>(r, v). r @ [v]) (zip (rows df) vs)\<rparr>)"

text \<open>
  A \<^verbatim>\<open>dict\<close> with string keys is an association list in insertion order:
  \<^verbatim>\<open>d[k] = v\<close> is \<^const>\<open>AList.update\<close> (an existing key keeps its place and takes the
  new value) and a lookup is \<^const>\<open>map_of\<close>. \<^verbatim>\<open>Series.map(d)\<close> looks every cell up
  in the dict; a cell that is not a key becomes missing.
\<close>

type_synonym dict = "(string \<times> string) list"

definition series_map :: "cell list \<Rightarrow> dict \<Rightarrow> cell list" where
  "series_map vs d =
    map (\<lambda>v. case v of
               Str s \<Rightarrow> (case map_of d s of Some t \<Rightarrow> Str t | None \<Rightarrow> Missing)
             | _ \<Rightarrow> Missing) vs"

text \<open>
  \<^verbatim>\<open>df.loc[:, labels]\<close>: for each requested label in turn, every column carrying it.
\<close>

definition loc_columns :: "dataframe \<Rightarrow> string list \<Rightarrow> dataframe" where
  "loc_columns df labels =
    \<lparr>columns = concat (map (\<lambda>l. filter (\<lambda>n. n = l) (columns df)) labels),
     rows = map (\<lambda>r. concat (map (\<lambda>l. map snd (filter (\<lambda>(n, v). n = l) (zip (columns df) r))) labels))
                (rows df)\<rparr>"

text \<open>
  \<^verbatim>\<open>df.drop_duplicates(subset=keys)\<close> keeps, of the rows that agree on the key columns,
  the first. The key of a row is its cells in the key columns; missing cells compare
  equal to each other, as they do for pandas.
\<close>

definition row_key :: "string list \<Rightarrow> string list \<Rightarrow> cell list \<Rightarrow> cell list" where
  "row_key cols ks r = map (row_cell cols r) ks"

fun drop_seen :: "('r \<Rightarrow> 'k) \<Rightarrow> 'k list \<Rightarrow> 'r list \<Rightarrow> 'r list" where
  "drop_seen key seen [] = []"
| "drop_seen key seen (r # rs) =
    (if key r \<in> set seen then drop_seen key seen rs
     else r # drop_seen key (key r # seen) rs)"

definition drop_duplicates :: "dataframe \<Rightarrow> string list \<Rightarrow> dataframe" where
  "drop_duplicates df ks = df\<lparr>rows := drop_seen (row_key (columns df) ks) [] (rows df)\<rparr>"

text \<open>
  \<^verbatim>\<open>left.merge(right, on=keys, suffixes=(ls, rs), how="outer")\<close>.
  pandas refuses the merge, raising an exception the script does not catch, when there is
  no key, when a key does not label exactly one column of each frame, when
  columns collide and both suffixes are empty, and when a suffix makes two labels of one
  side equal that were different before. Otherwise the result has the columns of the left
  frame (a colliding label extended by \<open>ls\<close>) followed by the non-key columns of the
  right frame (a colliding label extended by \<open>rs\<close>), and these rows:
  each left row joined with every right row of the same key, or padded with missing
  cells when there is none; then each right row whose key no left row has, with its key
  cells in the key columns and missing cells in the other left columns.
  Two things are outside the model: pandas orders the rows of an outer join by key, and it
  refuses key columns of incompatible dtypes. The model lists the rows as just described,
  cells carry no dtype, and no statement below speaks about the order of merged rows.
\<close>

datatype error = PandasError

definition duplicated :: "string list \<Rightarrow> bool list" where
  "duplicated xs = map (\<lambda>i. xs ! i \<in> set (take i xs)) [0..<length xs]"

definition suffix_dups :: "string list \<Rightarrow> string list \<Rightarrow> string list" where
  "suffix_dups orig labels =
    map fst (filter (\<lambda>(l, d, d0). d \<and> \<not> d0) (zip labels (zip (duplicated labels) (duplicated orig))))"

definition right_values :: "dataframe \<Rightarrow> string list \<Rightarrow> cell list \<Rightarrow> cell list" where
  "right_values right on r = map snd (filter (\<lambda>(c, v). c \<notin> set on) (zip (columns right) r))"

definition joined_rows :: "dataframe \<Rightarrow> dataframe \<Rightarrow> string list \<Rightarrow> cell list \<Rightarrow> cell list list" where
  "joined_rows left right on l =
    (let ms = filter (\<lambda>r. row_key (columns right) on r = row_key (columns left) on l) (rows right)
     in if ms = []
        then [l @ replicate (length (filter (\<lambda>c. c \<notin> set on) (columns right))) Missing]
        else map (\<lambda>r. l @ right_values right on r) ms)"

definition right_only_rows :: "dataframe \<Rightarrow> dataframe \<Rightarrow> string list \<Rightarrow> cell list list" where
  "right_only_rows left right on =
    map (\<lambda>r. map (\<lambda>c. if c \<in> set on then row_cell (columns right) r c else Missing) (columns left)
              @ right_values right on r)
        (filter (\<lambda>r. row_key (columns right) on r \<notin> set (map (row_key (columns left) on) (rows left)))
                (rows right))"

definition merge_outer ::
  "dataframe \<Rightarrow> dataframe \<Rightarrow> string list \<Rightarrow> string \<times> string \<Rightarrow> error + dataframe" where
  "merge_outer left right on suffixes =
    (if on = [] \<or> list_ex (\<lambda>k. count_list (columns left) k \<noteq> 1 \<or> count_list (columns right) k \<noteq> 1) on
     then Inl PandasError
     else
       let rcols = filter (\<lambda>c. c \<notin> set on) (columns right);
           to_rename = filter (\<lambda>c. c \<in> set rcols) (columns left);
           llabels = map (\<lambda>c. if c \<in> set to_rename then c @ fst suffixes else c) (columns left);
           rlabels = map (\<lambda>c. if c \<in> set to_rename then c @ snd suffixes else c) rcols
       in if to_rename \<noteq> [] \<and> fst suffixes = [] \<and> snd suffixes = [] then Inl PandasError
          else if suffix_dups (columns left) llabels \<noteq> [] \<or> suffix_dups rcols rlabels \<noteq> []
          then Inl PandasError
          else Inr \<lparr>columns = llabels @ rlabels,
                    rows = concat (map (joined_rows left right on) (rows left))
                           @ right_only_rows left right on\<rparr>)"

text \<open>
  \<^verbatim>\<open>df[df[c] != s]\<close> for a label \<open>c\<close> of the frame. When \<open>c\<close> labels one column,
  \<^verbatim>\<open>df[c]\<close> is a series, the comparison a series of booleans, and the rows whose cell
  differs from \<open>s\<close> are kept. When \<open>c\<close> labels several columns, \<^verbatim>\<open>df[c]\<close> is the frame
  of these columns, the comparison a frame of booleans, and indexing with it is
  \<^verbatim>\<open>df.where\<close>: pandas aligns the boolean frame with \<open>df\<close> and raises
  \<^verbatim>\<open>ValueError\<close> (duplicate labels cannot be reindexed), unless the two frames have the
  same columns, that is unless every column of \<open>df\<close> is labelled \<open>c\<close>; then no row is
  dropped and each cell equal to \<open>s\<close> becomes missing.
\<close>

definition select_ne :: "dataframe \<Rightarrow> string \<Rightarrow> cell \<Rightarrow> error + dataframe" where
  "select_ne df c s =
    (if count_list (columns df) c = 1
     then Inr (df\<lparr>rows := map fst (filter (\<lambda>(r, v). v \<noteq> s) (zip (rows df) (getitem df c)))\<rparr>)
     else if list_all (\<lambda>n. n = c) (columns df)
     then Inr (df\<lparr>rows := map (map (\<lambda>v. if v \<noteq> s then v else Missing)) (rows df)\<rparr>)
     else Inl PandasError)"

section \<open>Column Normalizer\<close>

text \<open>
  The frame \<^verbatim>\<open>pd.read_html\<close> returns has either single-level columns or a
  \<^verbatim>\<open>MultiIndex\<close>, whose labels are tuples; the script reads the first two components
  of a tuple (group label, sub-label).
\<close>

datatype frame = Plain dataframe | MultiIndexed "(string \<times> string) list" "cell list list"

text \<open>
  The body of the loop in \<^verbatim>\<open>flatten_multiindex_columns\<close>: the new name of one column.
  (The loop's \<^verbatim>\<open>else\<close> branch is for a label that is no tuple; a \<^verbatim>\<open>MultiIndex\<close> has none.)
\<close>

definition flat_name :: "string \<times> string \<Rightarrow> string" where
  "flat_name col =
    (let col_name_1 = (if py_in ''Unnamed'' (fst col) then [] else fst col);
         col_name_2 = (if py_in ''Unnamed'' (fst col) then snd col else '' '' @ snd col)
     in py_strip (col_name_1 @ col_name_2))"

text \<open>
  \<^verbatim>\<open>flatten_multiindex_columns(df)\<close>. The step
  \<^verbatim>\<open>df[df["Rk"] != "Rk"].reset_index(drop=True)\<close> keeps the rows whose \<open>Rk\<close> cell is
  not the string \<open>Rk\<close> and renumbers them (rows of the model carry no index label); it
  is the one step of the function that can raise, when several of the new names are
  \<open>Rk\<close>.
\<close>

definition flatten_multiindex_columns :: "frame \<Rightarrow> error + frame" where
  "flatten_multiindex_columns f =
    (case f of
       Plain df \<Rightarrow> Inr (Plain df)
     | MultiIndexed cols rs \<Rightarrow>
         (let df = \<lparr>columns = map flat_name cols, rows = rs\<rparr>
          in if ''Rk'' \<in> set (columns df)
             then (case select_ne df ''Rk'' (Str ''Rk'') of
                     Inl e \<Rightarrow> Inl e
                   | Inr df \<Rightarrow> Inr (Plain df))
             else Inr (Plain df)))"

text \<open>The renaming rule in the words of the specification, without the trimming.\<close>

definition flat_name_spec :: "string \<times> string \<Rightarrow> string" where
  "flat_name_spec col = (if py_in ''Unnamed'' (fst col) then snd col else fst col @ '' '' @ snd col)"

section \<open>ID Extractor\<close>

text \<open>
  The parsed markup, as BeautifulSoup presents it: a tag has a name, its attributes, its
  classes (\<^verbatim>\<open>tag.get("class")\<close>: a list of class names, or \<^verbatim>\<open>None\<close> for a tag
  without a class attribute) and its children in document order; the other nodes are
  strings. A tag is truthy whatever it contains, so \<^verbatim>\<open>if link\<close> and
  \<^verbatim>\<open>if not tbody\<close> test for \<^verbatim>\<open>None\<close> only.
\<close>

datatype node =
  Tag string "(string \<times> string) list" "string list option" "node list"
| NavigableString string

fun descendants :: "node \<Rightarrow> node list" where
  "descendants (Tag n a c ks) = concat (map (\<lambda>k. k # descendants k) ks)"
| "descendants (NavigableString s) = []"

text \<open>
  \<^verbatim>\<open>t.find_all(names, attrs)\<close>: the tags below \<open>t\<close>, in document order, with one of the
  names and each of the attribute values; \<^verbatim>\<open>t.find(names, attrs)\<close> is the first of
  them, or \<^verbatim>\<open>None\<close>.
\<close>

fun selected :: "string list \<Rightarrow> (string \<times> string) list \<Rightarrow> node \<Rightarrow> bool" where
  "selected names flt (Tag n a c ks) = (n \<in> set names \<and> list_all (\<lambda>(k, v). map_of a k = Some v) flt)"
| "selected names flt (NavigableString s) = False"

definition find_all :: "node \<Rightarrow> string list \<Rightarrow> (string \<times> string) list \<Rightarrow> node list" where
  "find_all t names flt = filter (selected names flt) (descendants t)"

definition soup_find :: "node \<Rightarrow> string list \<Rightarrow> (string \<times> string) list \<Rightarrow> node option" where
  "soup_find t names flt = (case find_all t names flt of [] \<Rightarrow> None | d # ds \<Rightarrow> Some d)"

fun get_attr :: "node \<Rightarrow> string \<Rightarrow> string option" where
  "get_attr (Tag n a c ks) k = map_of a k"
| "get_attr (NavigableString s) k = None"

fun get_class :: "node \<Rightarrow> string list option" where
  "get_class (Tag n a c ks) = c"
| "get_class (NavigableString s) = None"

text \<open>\<^verbatim>\<open>t.text\<close>: the strings below \<open>t\<close>, concatenated.\<close>

fun get_text :: "node \<Rightarrow> string" where
  "get_text (Tag n a c ks) = concat (map get_text ks)"
| "get_text (NavigableString s) = s"

text \<open>
  \<^verbatim>\<open>re.search\<close> with a pattern of the shape \<^verbatim>\<open>prefix([a-f0-9]+)/\<close>, the prefix
  literal: the leftmost place where the prefix, then a non-empty run of lowercase
  hexadecimal digits, then a slash occur; the result is the run. (The run is greedy and a
  slash is no digit, so only the whole run of digits can be followed by the slash.)
\<close>

definition is_hex :: "char \<Rightarrow> bool" where
  "is_hex c = (let n = of_char c :: nat in (48 \<le> n \<and> n \<le> 57) \<or> (97 \<le> n \<and> n \<le> 102))"

definition re_match :: "string \<Rightarrow> string \<Rightarrow> string option" where
  "re_match prefix s =
    (if startswith s prefix
     then (let rest = drop (length prefix) s; g = takeWhile is_hex rest
           in if g \<noteq> [] \<and> startswith (dropWhile is_hex rest) ''/'' then Some g else None)
     else None)"

fun re_search :: "string \<Rightarrow> string \<Rightarrow> string option" where
  "re_search prefix [] = None"
| "re_search prefix (c # cs) =
    (case re_match prefix (c # cs) of Some g \<Rightarrow> Some g | None \<Rightarrow> re_search prefix cs)"

text \<open>
  The body of either loop of \<^verbatim>\<open>extract_ids_from_soup\<close>: the entry a cell adds to
  \<^verbatim>\<open>id_map\<close>, or none when the cell is skipped.
\<close>

definition id_entry :: "string \<Rightarrow> node \<Rightarrow> (string \<times> string) option" where
  "id_entry pattern cell =
    (case soup_find cell [''a''] [] of
       None \<Rightarrow> None
     | Some link \<Rightarrow>
         (case get_attr link ''href'' of
            None \<Rightarrow> None
          | Some href \<Rightarrow>
              if href = [] then None
              else (case re_search pattern href of
                      None \<Rightarrow> None
                    | Some entity_id \<Rightarrow> Some (py_strip (get_text link), entity_id))))"

definition id_cells :: "node \<Rightarrow> string \<Rightarrow> node list" where
  "id_cells table id_type =
    (let data_stat = (if id_type = ''player'' then id_type else ''team'')
     in if id_type = ''player''
        then find_all table [''td''] [(''data-stat'', data_stat)]
        else find_all table [''th''] [(''data-stat'', data_stat)])"

definition id_pattern :: "string \<Rightarrow> string" where
  "id_pattern id_type = ''/en/'' @ (if id_type = ''player'' then ''players'' else ''squads'') @ ''/''"

definition extract_ids_from_soup :: "node option \<Rightarrow> string \<Rightarrow> dict" where
  "extract_ids_from_soup soup_table id_type =
    (case soup_table of
       None \<Rightarrow> []
     | Some table \<Rightarrow>
         foldl (\<lambda>id_map cell.
                  case id_entry (id_pattern id_type) cell of
                    None \<Rightarrow> id_map
                  | Some (name, entity_id) \<Rightarrow> AList.update name entity_id id_map)
               [] (id_cells table id_type))"

text \<open>
  \<^verbatim>\<open>extract_player_team_ids_from_soup\<close>. One identifier of a row: the cell may be
  absent, the cell may hold no link, the link's target (\<^verbatim>\<open>get("href", "")\<close>) may not
  match.
\<close>

definition href_id :: "string \<Rightarrow> node option \<Rightarrow> string option" where
  "href_id pattern cell =
    (case cell of
       None \<Rightarrow> None
     | Some c \<Rightarrow>
         (case soup_find c [''a''] [] of
            None \<Rightarrow> None
          | Some link \<Rightarrow>
              re_search pattern (case get_attr link ''href'' of None \<Rightarrow> [] | Some h \<Rightarrow> h)))"

definition is_section_header :: "node \<Rightarrow> bool" where
  "is_section_header row =
    (case get_class row of
       None \<Rightarrow> False
     | Some cs \<Rightarrow> cs \<noteq> [] \<and> list_ex (\<lambda>c. py_in ''thead'' c) cs)"

definition row_ids :: "node \<Rightarrow> string option \<times> string option" where
  "row_ids row =
    (let player_cell = soup_find row [''td'', ''th''] [(''data-stat'', ''player'')];
         team_cell = soup_find row [''td'', ''th''] [(''data-stat'', ''team'')];
         player_id = href_id ''/en/players/'' player_cell;
         team_id = href_id ''/en/squads/'' team_cell
     in (player_id, team_id))"

definition extract_player_team_ids_from_soup :: "node option \<Rightarrow> (string option \<times> string option) list" where
  "extract_player_team_ids_from_soup soup_table =
    (case soup_table of
       None \<Rightarrow> []
     | Some table \<Rightarrow>
         (case soup_find table [''tbody''] [] of
            None \<Rightarrow> []
          | Some tbody \<Rightarrow>
              map row_ids (filter (\<lambda>row. \<not> is_section_header row) (find_all tbody [''tr''] []))))"

section \<open>Row Enricher\<close>

text \<open>
  \<^verbatim>\<open>add_team_id_to_player_df(df, rows_data)\<close>. An identifier of \<^verbatim>\<open>rows_data\<close> is a
  string or \<^verbatim>\<open>None\<close>; \<^verbatim>\<open>if pid and tid\<close> holds for two non-empty strings. The dict
  comprehension stores the pairs from first to last, a later pair overwriting the value of
  an earlier one with the same key. A \<^verbatim>\<open>None\<close> placed in a column is a missing cell.
\<close>

definition opt_cell :: "string option \<Rightarrow> cell" where
  "opt_cell v = (case v of None \<Rightarrow> Missing | Some s \<Rightarrow> Str s)"

fun dict_item :: "dict \<Rightarrow> string option \<times> string option \<Rightarrow> dict" where
  "dict_item d (Some pid, Some tid) = (if pid \<noteq> [] \<and> tid \<noteq> [] then AList.update pid tid d else d)"
| "dict_item d (pid, tid) = d"

definition dict_of :: "(string option \<times> string option) list \<Rightarrow> dict" where
  "dict_of pairs = foldl dict_item [] pairs"

definition add_team_id_to_player_df ::
  "dataframe \<Rightarrow> (string option \<times> string option) list \<Rightarrow> dataframe" where
  "add_team_id_to_player_df df rows_data =
    (if rows_data = [] then df
     else
       let valid_rows = filter (\<lambda>r. fst r \<noteq> None) rows_data
       in if length valid_rows \<noteq> df_len df
          then (let id_map = dict_of valid_rows
                in if ''Player ID'' \<in> set (columns df)
                   then setitem df ''Team ID'' (series_map (getitem df ''Player ID'') id_map)
                   else df)
          else setitem df ''Team ID'' (map (\<lambda>r. opt_cell (snd r)) valid_rows))"

section \<open>Safe Merger\<close>

text \<open>
  \<^verbatim>\<open>safe_merge(left_df, right_df, merge_keys, suffixes)\<close> returns a frame and may print
  one line, \<^verbatim>\<open>Warning: Merge increased rows from m to n\<close>; the model returns the frame
  together with what was printed. \<^verbatim>\<open>len(left_df) * 1.5\<close> is exact for every row count
  a frame can have, so the comparison is the one of the reals.
\<close>

datatype printed = Warning_Merge_increased_rows nat nat

definition default_suffixes :: "string \<times> string" where
  "default_suffixes = ('''', ''_duplicate'')"

definition safe_merge ::
  "dataframe \<Rightarrow> dataframe \<Rightarrow> string list \<Rightarrow> string \<times> string \<Rightarrow> error + dataframe \<times> printed list" where
  "safe_merge left_df right_df merge_keys suffixes =
    (if df_empty left_df then Inr (right_df, [])
     else if df_empty right_df then Inr (left_df, [])
     else if merge_keys = [] then Inr (left_df, [])
     else
       let existing_keys =
             filter (\<lambda>k. k \<in> set (columns left_df) \<and> k \<in> set (columns right_df)) merge_keys
       in if existing_keys = [] then Inr (left_df, [])
          else
            let right_deduped = drop_duplicates right_df existing_keys
            in case merge_outer left_df right_deduped existing_keys suffixes of
                 Inl e \<Rightarrow> Inl e
               | Inr merged \<Rightarrow>
                   Inr (merged,
                        if real (df_len merged) > real (df_len left_df) * 1.5 \<and> df_len merged > 100
                        then [Warning_Merge_increased_rows (df_len left_df) (df_len merged)]
                        else []))"

section \<open>Aggregation Driver: removing the merge artifacts\<close>

definition remove_duplicate_columns :: "dataframe \<Rightarrow> dataframe" where
  "remove_duplicate_columns df =
    loc_columns df (filter (\<lambda>col. \<not> py_in ''_duplicate'' col) (columns df))"

text \<open>
  The three consolidated tables of the driver, and the step of the driver that follows
  the loop over the categories: each table loses its marked columns.
\<close>

record consolidated =
  teaminfo_for_df :: dataframe
  teaminfo_against_df :: dataframe
  playerinfo_df :: dataframe

definition remove_duplicate_columns_step :: "consolidated \<Rightarrow> consolidated" where
  "remove_duplicate_columns_step t =
    (let t = t\<lparr>teaminfo_for_df := remove_duplicate_columns (teaminfo_for_df t)\<rparr>;
         t = t\<lparr>teaminfo_against_df := remove_duplicate_columns (teaminfo_against_df t)\<rparr>;
         t = t\<lparr>playerinfo_df := remove_duplicate_columns (playerinfo_df t)\<rparr>
     in t)"

section \<open>Merge Key Resolver\<close>

text \<open>
  \<^verbatim>\<open>get_merge_keys(df, data_type)\<close>. The list \<^verbatim>\<open>keys\<close> that the player branch
  appends to is threaded through the three steps.
\<close>

definition get_merge_keys :: "dataframe \<Rightarrow> string \<Rightarrow> string list" where
  "get_merge_keys df data_type =
    (if data_type = ''team'' then
       (if ''Team ID'' \<in> set (columns df) then [''Team ID'']
        else if ''Squad'' \<in> set (columns df) then [''Squad'']
        else [])
     else if data_type = ''player'' then
       (let keys = [];
            keys = (if ''Player ID'' \<in> set (columns df) then keys @ [''Player ID''] else keys);
            keys = (if ''Team ID'' \<in> set (columns df) then keys @ [''Team ID''] else keys);
            keys = (if keys = [] then
                      (let keys = (if ''Player'' \<in> set (columns df) then keys @ [''Player''] else keys);
                           keys = (if ''Squad'' \<in> set (columns df) then keys @ [''Squad''] else keys)
                       in keys)
                    else keys)
        in keys)
     else [])"

text \<open>The resolver in the words of the specification: the listed columns that are present.\<close>

definition present :: "dataframe \<Rightarrow> string list \<Rightarrow> string list" where
  "present df cs = filter (\<lambda>c. c \<in> set (columns df)) cs"

definition team_keys_spec :: "dataframe \<Rightarrow> string list" where
  "team_keys_spec df =
    (if ''Team ID'' \<in> set (columns df) then [''Team ID'']
     else if ''Squad'' \<in> set (columns df) then [''Squad'']
     else [])"

definition player_keys_spec :: "dataframe \<Rightarrow> string list" where
  "player_keys_spec df =
    (if ''Player ID'' \<in> set (columns df) \<or> ''Team ID'' \<in> set (columns df)
     then present df [''Player ID'', ''Team ID'']
     else present df [''Player'', ''Squad''])"

section \<open>Notions of the specification\<close>

text \<open>
  A cell whose link matches, in the words of the specification: the first link of the cell
  has a target in which the pattern is found.
\<close>

definition matching_link :: "string \<Rightarrow> node \<Rightarrow> bool" where
  "matching_link pattern cell =
    (case soup_find cell [''a''] [] of
       None \<Rightarrow> False
     | Some link \<Rightarrow>
         (case get_attr link ''href'' of
            None \<Rightarrow> False
          | Some href \<Rightarrow> re_search pattern href \<noteq> None))"

text \<open>
  Names for two things the Safe Merger computes: the listed keys that are columns of both
  frames, and the condition under which it prints its warning, in the words of the
  specification (more than 1.5 times the rows of the accumulator, and more than 100 rows).
\<close>

definition existing_keys :: "dataframe \<Rightarrow> dataframe \<Rightarrow> string list \<Rightarrow> string list" where
  "existing_keys left_df right_df merge_keys =
     filter (\<lambda>k. k \<in> set (columns left_df) \<and> k \<in> set (columns right_df)) merge_keys"

definition fan_out :: "nat \<Rightarrow> nat \<Rightarrow> bool" where
  "fan_out before after = (real after > 1.5 * real before \<and> after > 100)"

text \<open>
  The deduplication in the words of the specification: one row per distinct key, the
  first among the rows that share it, which is a row no earlier row shares its key with.
\<close>

definition first_per_key :: "('r \<Rightarrow> 'k) \<Rightarrow> 'r list \<Rightarrow> 'r list" where
  "first_per_key key rs =
     map (\<lambda>i. rs ! i) (filter (\<lambda>i. key (rs ! i) \<notin> key ` set (take i rs)) [0..<length rs])"

text \<open>
  A label without surrounding whitespace, such as \<^verbatim>\<open>read_html\<close> produces: it is not
  empty and neither begins nor ends with a whitespace character.
\<close>

definition trimmed :: "string \<Rightarrow> bool" where
  "trimmed s = (s \<noteq> [] \<and> \<not> isspace (hd s) \<and> \<not> isspace (last s))"




section \<open>Properties\<close>

text \<open>
  C5. For every table the Merge Key Resolver returns, for kind team, the list holding the
  team-identifier column when it is present, else the list holding the team-name column
  when present, else the empty list; for kind player, the present ones among the
  player-identifier and team-identifier columns, identifier first, and only when neither
  is present the present ones among the player-name and team-name columns, possibly none.
  A team table with both an identifier column and a name column yields the identifier
  column only.
\<close>

theorem get_merge_keys_resolves:
  "get_merge_keys df ''team'' = team_keys_spec df
   \<and> get_merge_keys df ''player'' = player_keys_spec df
   \<and> (''Team ID'' \<in> set (columns df) \<and> ''Squad'' \<in> set (columns df)
        \<longrightarrow> get_merge_keys df ''team'' = [''Team ID''])"
  by (simp add: get_merge_keys_def team_keys_spec_def player_keys_spec_def present_def Let_def)

theorem get_merge_keys_resolves_witness:
  "get_merge_keys \<lparr>columns = [''Squad'', ''Gls'', ''Team ID''], rows = []\<rparr> ''team'' = [''Team ID'']
   \<and> get_merge_keys \<lparr>columns = [''Player'', ''Squad'', ''Gls''], rows = []\<rparr> ''player''
       = [''Player'', ''Squad'']"
  using get_merge_keys_resolves [of "\<lparr>columns = [''Squad'', ''Gls'', ''Team ID''], rows = []\<rparr>"]
    get_merge_keys_resolves [of "\<lparr>columns = [''Player'', ''Squad'', ''Gls''], rows = []\<rparr>"]
  by (simp add: team_keys_spec_def player_keys_spec_def present_def)

subsection \<open>ID Extractor\<close>

lemma id_entry_None_iff: "id_entry p cell = None \<longleftrightarrow> \<not> matching_link p cell"
  by (auto simp: id_entry_def matching_link_def split: option.splits)

lemma fold_entries_Nil:
  "foldl (\<lambda>id_map cell. case f cell of None \<Rightarrow> id_map
            | Some (name, entity_id) \<Rightarrow> AList.update name entity_id id_map) d cells = []
   \<longleftrightarrow> d = [] \<and> (\<forall>cell\<in>set cells. f cell = None)"
proof (induction cells arbitrary: d)
  case Nil
  show ?case by simp
next
  case (Cons c cs)
  show ?case
  proof (cases "f c")
    case None
    then show ?thesis using Cons.IH [of d] by simp
  next
    case (Some e)
    obtain n i where e: "e = (n, i)" by (cases e)
    have "AList.update n i d \<noteq> []" by simp
    then show ?thesis using Some e Cons.IH [of "AList.update n i d"] by simp
  qed
qed

text \<open>
  C7. The ID Extractor returns an empty mapping for an absent table, and for a table none
  of whose relevant cells (the cells \<^verbatim>\<open>find_all\<close> selects for the kind) has a link
  matching the pattern of the kind; it is empty in no other case. A cell without a
  matching link adds nothing. No step of the function can fail: its result is a mapping
  for every input.
\<close>

theorem extract_ids_from_soup_empty:
  "extract_ids_from_soup None id_type = []
   \<and> (extract_ids_from_soup (Some table) id_type = []
        \<longleftrightarrow> (\<forall>cell\<in>set (id_cells table id_type). \<not> matching_link (id_pattern id_type) cell))"
  by (simp add: extract_ids_from_soup_def fold_entries_Nil id_entry_None_iff)

theorem extract_ids_from_soup_empty_witness:
  "extract_ids_from_soup (Some (Tag ''table'' [] None
         [Tag ''tr'' [] None
            [Tag ''td'' [(''data-stat'', ''player'')] None
               [Tag ''a'' [(''href'', ''/en/squads/ab12/Ann'')] None [NavigableString ''Ann'']],
             Tag ''td'' [(''data-stat'', ''player'')] None [NavigableString ''Bob'']]])) ''player'' = []"
proof -
  let ?t = "Tag ''table'' [] None
         [Tag ''tr'' [] None
            [Tag ''td'' [(''data-stat'', ''player'')] None
               [Tag ''a'' [(''href'', ''/en/squads/ab12/Ann'')] None [NavigableString ''Ann'']],
             Tag ''td'' [(''data-stat'', ''player'')] None [NavigableString ''Bob'']]]"
  have "\<forall>cell\<in>set (id_cells ?t ''player''). \<not> matching_link (id_pattern ''player'') cell"
    by (simp add: id_cells_def find_all_def matching_link_def soup_find_def id_pattern_def
        re_match_def Let_def)
  then show ?thesis
    using extract_ids_from_soup_empty [of "''player''" ?t] by blast
qed

subsection \<open>Row Enricher: an empty association list\<close>

text \<open>
  C10. The association list is empty for an absent table and for a table below which
  there is no \<open>tbody\<close> tag; with an empty association list the Row Enricher returns the
  player table as it was, so a table without a team-identifier column still has none.
\<close>

theorem no_association_no_change:
  "extract_player_team_ids_from_soup None = []
   \<and> (soup_find table [''tbody''] [] = None \<longrightarrow> extract_player_team_ids_from_soup (Some table) = [])
   \<and> add_team_id_to_player_df df [] = df
   \<and> (''Team ID'' \<notin> set (columns df) \<longrightarrow> ''Team ID'' \<notin> set (columns (add_team_id_to_player_df df [])))"
  by (simp add: extract_player_team_ids_from_soup_def add_team_id_to_player_df_def)

theorem no_association_no_change_witness:
  "soup_find (Tag ''table'' [] None [Tag ''tr'' [] None []]) [''tbody''] [] = None
   \<and> extract_player_team_ids_from_soup (Some (Tag ''table'' [] None [Tag ''tr'' [] None []])) = []
   \<and> add_team_id_to_player_df \<lparr>columns = [''Player''], rows = [[Str ''Ann'']]\<rparr> []
       = \<lparr>columns = [''Player''], rows = [[Str ''Ann'']]\<rparr>
   \<and> ''Team ID'' \<notin> set (columns (add_team_id_to_player_df \<lparr>columns = [''Player''], rows = [[Str ''Ann'']]\<rparr> []))"
proof -
  have h: "soup_find (Tag ''table'' [] None [Tag ''tr'' [] None []]) [''tbody''] [] = None"
    by (simp add: soup_find_def find_all_def)
  show ?thesis
    using h no_association_no_change [of "Tag ''table'' [] None [Tag ''tr'' [] None []]"
        "\<lparr>columns = [''Player''], rows = [[Str ''Ann'']]\<rparr>"]
    by simp
qed

subsection \<open>Aggregation Driver: no marked column survives\<close>

lemma columns_loc_columns: "set (columns (loc_columns df labels)) = set labels \<inter> set (columns df)"
  by (auto simp: loc_columns_def)

text \<open>The step removes the marked columns and only them.\<close>

lemma remove_duplicate_columns_set:
  "set (columns (remove_duplicate_columns df)) = {c \<in> set (columns df). \<not> py_in ''_duplicate'' c}"
  by (auto simp: remove_duplicate_columns_def columns_loc_columns)

text \<open>
  C8. After the step of the driver that strips the merge artifacts, none of the three
  consolidated tables (team-for, team-against, player) has a column whose name contains
  the marker \<open>_duplicate\<close>.
\<close>

theorem no_duplicate_marker_after_step:
  "(\<forall>c\<in>set (columns (teaminfo_for_df (remove_duplicate_columns_step t))). \<not> py_in ''_duplicate'' c)
   \<and> (\<forall>c\<in>set (columns (teaminfo_against_df (remove_duplicate_columns_step t))). \<not> py_in ''_duplicate'' c)
   \<and> (\<forall>c\<in>set (columns (playerinfo_df (remove_duplicate_columns_step t))). \<not> py_in ''_duplicate'' c)"
  by (simp add: remove_duplicate_columns_step_def remove_duplicate_columns_set)

theorem no_duplicate_marker_after_step_witness:
  "\<not> py_in ''_duplicate''
       (hd (columns (teaminfo_for_df (remove_duplicate_columns_step
          \<lparr>teaminfo_for_df = \<lparr>columns = [''Squad_duplicate'', ''Gls''], rows = [[Str ''A'', Num 2]]\<rparr>,
           teaminfo_against_df = \<lparr>columns = [], rows = []\<rparr>,
           playerinfo_df = \<lparr>columns = [], rows = []\<rparr>\<rparr>))))
   \<and> columns (teaminfo_for_df (remove_duplicate_columns_step
          \<lparr>teaminfo_for_df = \<lparr>columns = [''Squad_duplicate'', ''Gls''], rows = [[Str ''A'', Num 2]]\<rparr>,
           teaminfo_against_df = \<lparr>columns = [], rows = []\<rparr>,
           playerinfo_df = \<lparr>columns = [], rows = []\<rparr>\<rparr>)) = [''Gls'']"
proof -
  let ?t = "\<lparr>teaminfo_for_df = \<lparr>columns = [''Squad_duplicate'', ''Gls''], rows = [[Str ''A'', Num 2]]\<rparr>,
           teaminfo_against_df = \<lparr>columns = [], rows = []\<rparr>,
           playerinfo_df = \<lparr>columns = [], rows = []\<rparr>\<rparr>"
  have c: "columns (teaminfo_for_df (remove_duplicate_columns_step ?t)) = [''Gls'']"
    by (simp add: remove_duplicate_columns_step_def remove_duplicate_columns_def loc_columns_def)
  have "hd (columns (teaminfo_for_df (remove_duplicate_columns_step ?t)))
          \<in> set (columns (teaminfo_for_df (remove_duplicate_columns_step ?t)))"
    unfolding c by simp
  then show ?thesis
    using no_duplicate_marker_after_step [of ?t] c by blast
qed


subsection \<open>Safe Merger: the degenerate cases\<close>

text \<open>
  The first guard of \<^verbatim>\<open>safe_merge\<close> wins over the others. With the empty accumulator
  the driver starts from, a new table and an empty key list, the result is the new table,
  not the accumulator; and of two empty tables with different columns, the result is the
  new one.
\<close>

theorem safe_merge_degenerate_counterexample:
  "safe_merge \<lparr>columns = [], rows = []\<rparr> \<lparr>columns = [''Gls''], rows = [[Num 1]]\<rparr> [] default_suffixes
     = Inr (\<lparr>columns = [''Gls''], rows = [[Num 1]]\<rparr>, [])
   \<and> safe_merge \<lparr>columns = [], rows = []\<rparr> \<lparr>columns = [''Gls''], rows = [[Num 1]]\<rparr> [] default_suffixes
     \<noteq> Inr (\<lparr>columns = [], rows = []\<rparr>, [])
   \<and> df_empty \<lparr>columns = [''Squad''], rows = []\<rparr>
   \<and> safe_merge \<lparr>columns = [''Team ID''], rows = []\<rparr> \<lparr>columns = [''Squad''], rows = []\<rparr>
         [''Team ID''] default_suffixes
     = Inr (\<lparr>columns = [''Squad''], rows = []\<rparr>, [])
   \<and> columns \<lparr>columns = [''Squad''], rows = []\<rparr> \<noteq> columns \<lparr>columns = [''Team ID''], rows = []\<rparr>"
  by (simp add: safe_merge_def df_empty_def)

text \<open>
  C3, amended. The Safe Merger returns the new table when the accumulator is empty. When
  the accumulator is not empty, it returns the accumulator unchanged, and prints nothing,
  when the new table is empty, when the key list is empty, and when none of the listed
  keys is a column of both tables.
\<close>

theorem safe_merge_degenerate:
  "(df_empty left_df \<longrightarrow> safe_merge left_df right_df merge_keys suffixes = Inr (right_df, []))
   \<and> (\<not> df_empty left_df
        \<and> (df_empty right_df \<or> merge_keys = [] \<or> existing_keys left_df right_df merge_keys = [])
        \<longrightarrow> safe_merge left_df right_df merge_keys suffixes = Inr (left_df, []))"
  by (simp add: safe_merge_def existing_keys_def Let_def)

theorem safe_merge_degenerate_witness:
  "safe_merge \<lparr>columns = [''Team ID'', ''Gls''], rows = [[Str ''t1'', Num 2]]\<rparr>
      \<lparr>columns = [''Squad'', ''Sh''], rows = [[Str ''A'', Num 9]]\<rparr> [''Team ID'', ''Squad''] default_suffixes
     = Inr (\<lparr>columns = [''Team ID'', ''Gls''], rows = [[Str ''t1'', Num 2]]\<rparr>, [])
   \<and> safe_merge \<lparr>columns = [], rows = []\<rparr>
      \<lparr>columns = [''Squad'', ''Sh''], rows = [[Str ''A'', Num 9]]\<rparr> [''Squad''] default_suffixes
     = Inr (\<lparr>columns = [''Squad'', ''Sh''], rows = [[Str ''A'', Num 9]]\<rparr>, [])"
proof -
  let ?l = "\<lparr>columns = [''Team ID'', ''Gls''], rows = [[Str ''t1'', Num 2]]\<rparr>"
  let ?r = "\<lparr>columns = [''Squad'', ''Sh''], rows = [[Str ''A'', Num 9]]\<rparr>"
  have a: "\<not> df_empty ?l" by (simp add: df_empty_def)
  have b: "existing_keys ?l ?r [''Team ID'', ''Squad''] = []" by (simp add: existing_keys_def)
  have c: "df_empty \<lparr>columns = [], rows = []\<rparr>" by (simp add: df_empty_def)
  show ?thesis
    using a b c safe_merge_degenerate [of ?l ?r "[''Team ID'', ''Squad'']" default_suffixes]
      safe_merge_degenerate [of "\<lparr>columns = [], rows = []\<rparr>" ?r "[''Squad'']" default_suffixes]
    by blast
qed

subsection \<open>Safe Merger: the warning\<close>

text \<open>The threshold in whole numbers.\<close>

lemma fan_out_threshold: "fan_out l m \<longleftrightarrow> 2 * m > 3 * l \<and> m > 100"
proof -
  have "real m > 1.5 * real l \<longleftrightarrow> real (2 * m) > real (3 * l)" by (simp add: field_simps)
  also have "\<dots> \<longleftrightarrow> 2 * m > 3 * l" by (simp only: of_nat_less_iff)
  finally show ?thesis by (simp add: fan_out_def)
qed

text \<open>
  C4. When neither table is empty, a listed key is a column of both and pandas performs the
  merge, the Safe Merger returns the merged frame, and it prints the warning if and only
  if the merged frame has more than 1.5 times the rows of the accumulator and more than
  100 rows; otherwise it prints nothing.
\<close>

theorem safe_merge_warning:
  assumes "\<not> df_empty left_df" and "\<not> df_empty right_df"
    and "existing_keys left_df right_df merge_keys = ks" and "ks \<noteq> []"
    and "merge_outer left_df (drop_duplicates right_df ks) ks suffixes = Inr merged"
  shows "\<exists>printed. safe_merge left_df right_df merge_keys suffixes = Inr (merged, printed)
     \<and> (printed = [Warning_Merge_increased_rows (df_len left_df) (df_len merged)]
          \<longleftrightarrow> fan_out (df_len left_df) (df_len merged))
     \<and> (printed = [] \<longleftrightarrow> \<not> fan_out (df_len left_df) (df_len merged))"
proof -
  have k: "merge_keys \<noteq> []" using assms(3,4) by (auto simp: existing_keys_def)
  show ?thesis
    using assms k
    by (auto simp: safe_merge_def existing_keys_def fan_out_def Let_def mult.commute)
qed

theorem safe_merge_warning_witness:
  "safe_merge \<lparr>columns = [''Team ID'', ''Goals''], rows = [[Str ''t1'', Num 2]]\<rparr>
      \<lparr>columns = [''Team ID'', ''Shots''], rows = [[Str ''t1'', Num 10]]\<rparr> [''Team ID''] default_suffixes
   = Inr (\<lparr>columns = [''Team ID'', ''Goals'', ''Shots''], rows = [[Str ''t1'', Num 2, Num 10]]\<rparr>, [])"
proof -
  let ?l = "\<lparr>columns = [''Team ID'', ''Goals''], rows = [[Str ''t1'', Num 2]]\<rparr>"
  let ?r = "\<lparr>columns = [''Team ID'', ''Shots''], rows = [[Str ''t1'', Num 10]]\<rparr>"
  let ?m = "\<lparr>columns = [''Team ID'', ''Goals'', ''Shots''], rows = [[Str ''t1'', Num 2, Num 10]]\<rparr>"
  have a: "\<not> df_empty ?l" "\<not> df_empty ?r" by (simp_all add: df_empty_def)
  have b: "existing_keys ?l ?r [''Team ID''] = [''Team ID'']" by (simp add: existing_keys_def)
  have c: "merge_outer ?l (drop_duplicates ?r [''Team ID'']) [''Team ID''] default_suffixes = Inr ?m"
    by (simp add: merge_outer_def drop_duplicates_def default_suffixes_def suffix_dups_def
        duplicated_def joined_rows_def right_only_rows_def right_values_def row_key_def
        row_cell_def Let_def)
  have d: "\<not> fan_out (df_len ?l) (df_len ?m)" by (simp add: fan_out_def df_len_def)
  from safe_merge_warning [OF a b _ c] d show ?thesis by auto
qed

subsection \<open>Safe Merger: deduplication, then outer join\<close>

lemma drop_seen_index:
  "drop_seen key seen rs =
     map (\<lambda>i. rs ! i)
       (filter (\<lambda>i. key (rs ! i) \<notin> set seen \<and> key (rs ! i) \<notin> key ` set (take i rs)) [0..<length rs])"
proof (induction rs arbitrary: seen)
  case Nil
  show ?case by simp
next
  case (Cons r rs)
  have upt: "[0..<Suc (length rs)] = 0 # map Suc [0..<length rs]"
    by (simp only: map_Suc_upt upt_conv_Cons [OF zero_less_Suc])
  show ?case
  proof (cases "key r \<in> set seen")
    case True
    have "filter (\<lambda>i. key (rs ! i) \<notin> set seen \<and> key (rs ! i) \<notin> key ` set (take i rs)) [0..<length rs]
        = filter (\<lambda>i. key (rs ! i) \<notin> set seen \<and> key (rs ! i) \<noteq> key r
                        \<and> key (rs ! i) \<notin> key ` set (take i rs)) [0..<length rs]"
      using True by (intro filter_cong) auto
    then show ?thesis
      using True Cons.IH [of seen] by (simp add: upt filter_map comp_def del: upt_Suc)
  next
    case False
    then show ?thesis
      using Cons.IH [of "key r # seen"]
      by (simp add: upt filter_map comp_def conj_ac del: upt_Suc)
  qed
qed

lemma drop_seen_first_per_key: "drop_seen key [] rs = first_per_key key rs"
  by (simp add: drop_seen_index first_per_key_def)

lemma drop_seen_unseen: "x \<in> set (drop_seen key seen rs) \<Longrightarrow> key x \<notin> set seen"
proof (induction rs arbitrary: seen)
  case Nil
  then show ?case by simp
next
  case (Cons r rs)
  show ?case
  proof (cases "key r \<in> set seen")
    case True
    then show ?thesis using Cons by simp
  next
    case False
    then have "x = r \<or> x \<in> set (drop_seen key (key r # seen) rs)" using Cons.prems by simp
    then show ?thesis
    proof
      assume "x = r" then show ?thesis using False by simp
    next
      assume "x \<in> set (drop_seen key (key r # seen) rs)"
      from Cons.IH [OF this] show ?thesis by simp
    qed
  qed
qed

lemma drop_seen_distinct: "distinct (map key (drop_seen key seen rs))"
  by (induction rs arbitrary: seen) (auto dest: drop_seen_unseen)

lemma drop_seen_skip:
  "key x \<in> set seen \<union> key ` set xs \<Longrightarrow> drop_seen key seen (xs @ x # ys) = drop_seen key seen (xs @ ys)"
  by (induction xs arbitrary: seen) auto

lemma drop_seen_Nil_iff: "drop_seen key [] rs = [] \<longleftrightarrow> rs = []"
  by (cases rs) auto

lemma distinct_filter_le1:
  "distinct (map key rs) \<Longrightarrow> length (filter (\<lambda>r. key r = k) rs) \<le> 1"
  by (induction rs) (auto simp: filter_empty_conv image_iff)

lemma joined_rows_one:
  assumes "distinct (map (row_key (columns right) on) (rows right))"
  shows "length (joined_rows left right on l) = 1"
proof -
  have "length (filter (\<lambda>r. row_key (columns right) on r = row_key (columns left) on l) (rows right)) \<le> 1"
    using distinct_filter_le1 [OF assms] .
  then show ?thesis
    by (cases "filter (\<lambda>r. row_key (columns right) on r = row_key (columns left) on l) (rows right)")
       (auto simp: joined_rows_def Let_def)
qed

lemma length_concat_ones: "(\<And>x. x \<in> set xs \<Longrightarrow> length (f x) = 1) \<Longrightarrow> length (concat (map f xs)) = length xs"
  by (induction xs) auto


lemma merge_outer_columns:
  assumes "merge_outer left right on ('''', sfx) = Inr m"
  shows "columns m = columns left
           @ map (\<lambda>c. if c \<in> set (columns left) then c @ sfx else c)
                 (filter (\<lambda>c. c \<notin> set on) (columns right))"
proof -
  let ?rcols = "filter (\<lambda>c. c \<notin> set on) (columns right)"
  let ?to_rename = "filter (\<lambda>c. c \<in> set ?rcols) (columns left)"
  have l: "map (\<lambda>c. if c \<in> set ?to_rename then c @ [] else c) (columns left) = columns left"
    by (rule map_idI) simp
  have r: "map (\<lambda>c. if c \<in> set ?to_rename then c @ sfx else c) ?rcols
         = map (\<lambda>c. if c \<in> set (columns left) then c @ sfx else c) ?rcols"
    by (rule map_cong) auto
  have "columns m = map (\<lambda>c. if c \<in> set ?to_rename then c @ [] else c) (columns left)
                    @ map (\<lambda>c. if c \<in> set ?to_rename then c @ sfx else c) ?rcols"
    using assms unfolding merge_outer_def Let_def fst_conv snd_conv
    by (auto split: if_splits)
  then show ?thesis by (simp only: l r)
qed

lemma merge_outer_len:
  assumes "merge_outer left right on sfxs = Inr m"
    and "distinct (map (row_key (columns right) on) (rows right))"
  shows "df_len m = df_len left
           + length (filter (\<lambda>r. row_key (columns right) on r
                                   \<notin> set (map (row_key (columns left) on) (rows left)))
                            (rows right))"
proof -
  have "length (concat (map (joined_rows left right on) (rows left))) = length (rows left)"
    by (rule length_concat_ones) (rule joined_rows_one [OF assms(2)])
  then show ?thesis
    using assms(1)
    by (auto simp: merge_outer_def Let_def df_len_def right_only_rows_def split: if_splits)
qed

lemma safe_merge_proper:
  assumes "\<not> df_empty left_df" and "\<not> df_empty right_df"
    and "existing_keys left_df right_df merge_keys = ks" and "ks \<noteq> []"
  shows "map_sum id fst (safe_merge left_df right_df merge_keys suffixes)
           = merge_outer left_df (drop_duplicates right_df ks) ks suffixes"
proof -
  have k: "merge_keys \<noteq> []" using assms(3,4) by (auto simp: existing_keys_def)
  show ?thesis
    using assms k
    by (auto simp: safe_merge_def existing_keys_def Let_def split: sum.splits)
qed

lemma drop_duplicates_first_per_key:
  "drop_duplicates df ks = df\<lparr>rows := first_per_key (row_key (columns df) ks) (rows df)\<rparr>"
  by (simp add: drop_duplicates_def drop_seen_first_per_key)

lemma drop_duplicates_remove_later:
  assumes "i < j" and "j < length (rows df)"
    and "row_key (columns df) ks (rows df ! i) = row_key (columns df) ks (rows df ! j)"
  shows "drop_duplicates (df\<lparr>rows := take j (rows df) @ drop (Suc j) (rows df)\<rparr>) ks
           = drop_duplicates df ks"
proof -
  have "rows df ! i \<in> set (take j (rows df))"
    using assms(1,2) by (auto simp: in_set_conv_nth intro!: exI [of _ i])
  then have "row_key (columns df) ks (rows df ! j) \<in> row_key (columns df) ks ` set (take j (rows df))"
    using assms(3) by (metis imageI)
  then have "drop_seen (row_key (columns df) ks) [] (take j (rows df) @ rows df ! j # drop (Suc j) (rows df))
      = drop_seen (row_key (columns df) ks) [] (take j (rows df) @ drop (Suc j) (rows df))"
    by (intro drop_seen_skip) simp
  moreover have "take j (rows df) @ rows df ! j # drop (Suc j) (rows df) = rows df"
    using assms(2) by (simp add: id_take_nth_drop [symmetric])
  ultimately show ?thesis by (simp add: drop_duplicates_def)
qed

text \<open>
  C2. For a non-empty accumulator and a non-empty new table that share at least one of
  the listed keys, the result of the Safe Merger is the outer join, on the shared keys, of
  the accumulator with the new table reduced to the first row of every key combination.
  When the join is performed, its columns are those of the accumulator followed by the
  non-key columns of the new table, a name that is also a column of the accumulator
  extended by \<open>_duplicate\<close>; every row of the accumulator gives one row, and the only
  other rows are those of the reduced new table whose key the accumulator does not have.
  A row of the new table that repeats the key combination of an earlier row contributes
  nothing: without it the result is the same.
\<close>

theorem safe_merge_dedup_then_join:
  assumes "\<not> df_empty left_df" and "\<not> df_empty right_df"
    and "existing_keys left_df right_df merge_keys = ks" and "ks \<noteq> []"
  shows
    "map_sum id fst (safe_merge left_df right_df merge_keys default_suffixes)
       = merge_outer left_df
           (right_df\<lparr>rows := first_per_key (row_key (columns right_df) ks) (rows right_df)\<rparr>)
           ks ('''', ''_duplicate'')
     \<and> (\<forall>merged printed.
           safe_merge left_df right_df merge_keys default_suffixes = Inr (merged, printed) \<longrightarrow>
             columns merged
               = columns left_df
                 @ map (\<lambda>c. if c \<in> set (columns left_df) then c @ ''_duplicate'' else c)
                       (filter (\<lambda>c. c \<notin> set ks) (columns right_df))
             \<and> df_len merged
               = df_len left_df
                 + length (filter (\<lambda>r. row_key (columns right_df) ks r
                                         \<notin> set (map (row_key (columns left_df) ks) (rows left_df)))
                                  (first_per_key (row_key (columns right_df) ks) (rows right_df))))
     \<and> (\<forall>i j. i < j \<and> j < df_len right_df
               \<and> row_key (columns right_df) ks (rows right_df ! i)
                   = row_key (columns right_df) ks (rows right_df ! j) \<longrightarrow>
           safe_merge left_df
             (right_df\<lparr>rows := take j (rows right_df) @ drop (Suc j) (rows right_df)\<rparr>)
             merge_keys default_suffixes
           = safe_merge left_df right_df merge_keys default_suffixes)"
proof (intro conjI allI impI)
  let ?key = "row_key (columns right_df) ks"
  let ?dd = "right_df\<lparr>rows := first_per_key ?key (rows right_df)\<rparr>"
  have dd: "drop_duplicates right_df ks = ?dd" by (rule drop_duplicates_first_per_key)
  show join: "map_sum id fst (safe_merge left_df right_df merge_keys default_suffixes)
       = merge_outer left_df ?dd ks ('''', ''_duplicate'')"
    using safe_merge_proper [OF assms, of default_suffixes] dd
    by (simp add: default_suffixes_def)
  {
    fix merged printed
    assume "safe_merge left_df right_df merge_keys default_suffixes = Inr (merged, printed)"
    then have m: "merge_outer left_df ?dd ks ('''', ''_duplicate'') = Inr merged"
      using join by simp
    show "columns merged
               = columns left_df
                 @ map (\<lambda>c. if c \<in> set (columns left_df) then c @ ''_duplicate'' else c)
                       (filter (\<lambda>c. c \<notin> set ks) (columns right_df))"
      using merge_outer_columns [OF m] by simp
    have "distinct (map ?key (rows ?dd))"
      using drop_seen_distinct [of ?key "[]" "rows right_df"]
      by (simp add: drop_seen_first_per_key)
    then show "df_len merged
               = df_len left_df
                 + length (filter (\<lambda>r. ?key r \<notin> set (map (row_key (columns left_df) ks) (rows left_df)))
                                  (first_per_key ?key (rows right_df)))"
      using merge_outer_len [OF m] by simp
  }
  {
    fix i j
    assume ij: "i < j \<and> j < df_len right_df \<and> ?key (rows right_df ! i) = ?key (rows right_df ! j)"
    let ?r' = "right_df\<lparr>rows := take j (rows right_df) @ drop (Suc j) (rows right_df)\<rparr>"
    have ne: "\<not> df_empty ?r'"
      using assms(2) ij by (auto simp: df_empty_def df_len_def)
    have ek: "existing_keys left_df ?r' merge_keys = ks"
      using assms(3) by (simp add: existing_keys_def)
    have d: "drop_duplicates ?r' ks = drop_duplicates right_df ks"
      using drop_duplicates_remove_later [of i j right_df ks] ij by (simp add: df_len_def)
    have k: "merge_keys \<noteq> []" using assms(3,4) by (auto simp: existing_keys_def)
    show "safe_merge left_df ?r' merge_keys default_suffixes
           = safe_merge left_df right_df merge_keys default_suffixes"
      using assms ne ek d k
      by (simp add: safe_merge_def existing_keys_def Let_def)
  }
qed

theorem safe_merge_dedup_then_join_witness:
  "map_sum id fst
     (safe_merge
        \<lparr>columns = [''Team ID'', ''Squad'', ''Goals''],
         rows = [[Str ''t1'', Str ''A'', Num 2], [Str ''t2'', Str ''B'', Num 3]]\<rparr>
        \<lparr>columns = [''Team ID'', ''Squad'', ''Shots''],
         rows = [[Str ''t1'', Str ''A'', Num 10], [Str ''t1'', Str ''A2'', Num 11],
                 [Str ''t3'', Str ''C'', Num 12]]\<rparr>
        [''Team ID''] default_suffixes)
   = Inr \<lparr>columns = [''Team ID'', ''Squad'', ''Goals'', ''Squad_duplicate'', ''Shots''],
          rows = [[Str ''t1'', Str ''A'', Num 2, Str ''A'', Num 10],
                  [Str ''t2'', Str ''B'', Num 3, Missing, Missing],
                  [Str ''t3'', Missing, Missing, Str ''C'', Num 12]]\<rparr>
   \<and> safe_merge
        \<lparr>columns = [''Team ID'', ''Squad'', ''Goals''],
         rows = [[Str ''t1'', Str ''A'', Num 2], [Str ''t2'', Str ''B'', Num 3]]\<rparr>
        \<lparr>columns = [''Team ID'', ''Squad'', ''Shots''],
         rows = [[Str ''t1'', Str ''A'', Num 10], [Str ''t3'', Str ''C'', Num 12]]\<rparr>
        [''Team ID''] default_suffixes
     = safe_merge
        \<lparr>columns = [''Team ID'', ''Squad'', ''Goals''],
         rows = [[Str ''t1'', Str ''A'', Num 2], [Str ''t2'', Str ''B'', Num 3]]\<rparr>
        \<lparr>columns = [''Team ID'', ''Squad'', ''Shots''],
         rows = [[Str ''t1'', Str ''A'', Num 10], [Str ''t1'', Str ''A2'', Num 11],
                 [Str ''t3'', Str ''C'', Num 12]]\<rparr>
        [''Team ID''] default_suffixes"
proof -
  let ?l = "\<lparr>columns = [''Team ID'', ''Squad'', ''Goals''],
         rows = [[Str ''t1'', Str ''A'', Num 2], [Str ''t2'', Str ''B'', Num 3]]\<rparr>"
  let ?r = "\<lparr>columns = [''Team ID'', ''Squad'', ''Shots''],
         rows = [[Str ''t1'', Str ''A'', Num 10], [Str ''t1'', Str ''A2'', Num 11],
                 [Str ''t3'', Str ''C'', Num 12]]\<rparr>"
  have a: "\<not> df_empty ?l" "\<not> df_empty ?r" by (simp_all add: df_empty_def)
  have b: "existing_keys ?l ?r [''Team ID''] = [''Team ID'']" by (simp add: existing_keys_def)
  have c: "[''Team ID''] \<noteq> []" by simp
  note t = safe_merge_dedup_then_join [OF a b c]
  have ij: "(0::nat) < 1 \<and> 1 < df_len ?r
      \<and> row_key (columns ?r) [''Team ID''] (rows ?r ! 0) = row_key (columns ?r) [''Team ID''] (rows ?r ! 1)"
    by (simp add: df_len_def row_key_def row_cell_def)
  have "safe_merge ?l (?r\<lparr>rows := take 1 (rows ?r) @ drop (Suc 1) (rows ?r)\<rparr>) [''Team ID''] default_suffixes
      = safe_merge ?l ?r [''Team ID''] default_suffixes"
    using t ij by blast
  then have second: "safe_merge ?l
        \<lparr>columns = [''Team ID'', ''Squad'', ''Shots''],
         rows = [[Str ''t1'', Str ''A'', Num 10], [Str ''t3'', Str ''C'', Num 12]]\<rparr>
        [''Team ID''] default_suffixes = safe_merge ?l ?r [''Team ID''] default_suffixes"
    by simp
  have "merge_outer ?l (?r\<lparr>rows := first_per_key (row_key (columns ?r) [''Team ID'']) (rows ?r)\<rparr>)
          [''Team ID''] ('''', ''_duplicate'')
      = Inr \<lparr>columns = [''Team ID'', ''Squad'', ''Goals'', ''Squad_duplicate'', ''Shots''],
          rows = [[Str ''t1'', Str ''A'', Num 2, Str ''A'', Num 10],
                  [Str ''t2'', Str ''B'', Num 3, Missing, Missing],
                  [Str ''t3'', Missing, Missing, Str ''C'', Num 12]]\<rparr>"
    by (simp add: drop_seen_first_per_key [symmetric] merge_outer_def suffix_dups_def
        duplicated_def joined_rows_def right_only_rows_def right_values_def row_key_def
        row_cell_def Let_def)
  then show ?thesis using t second by simp
qed


subsection \<open>Column Normalizer\<close>

lemma py_strip_trimmed: "trimmed s \<Longrightarrow> py_strip s = s"
proof -
  assume t: "trimmed s"
  then have a: "dropWhile isspace s = s"
    by (cases s) (auto simp: trimmed_def)
  have "rev s \<noteq> []" "\<not> isspace (hd (rev s))"
    using t by (auto simp: trimmed_def hd_rev)
  then have "dropWhile isspace (rev s) = rev s"
    by (cases "rev s") auto
  then show ?thesis by (simp add: py_strip_def a)
qed

lemma flat_name_strip: "flat_name = (\<lambda>col. py_strip (flat_name_spec col))"
  by (rule ext) (simp add: flat_name_def flat_name_spec_def Let_def)

lemma trimmed_flat_name_spec:
  "trimmed (fst col) \<Longrightarrow> trimmed (snd col) \<Longrightarrow> trimmed (flat_name_spec col)"
  by (auto simp: trimmed_def flat_name_spec_def)

lemma filter_zip_map: "map fst (filter (\<lambda>(r, v). P v) (zip rs (map f rs))) = filter (\<lambda>r. P (f r)) rs"
  by (induction rs) auto

lemma select_ne_once:
  "count_list (columns df) c = 1 \<Longrightarrow>
     select_ne df c s = Inr (df\<lparr>rows := filter (\<lambda>r. row_cell (columns df) r c \<noteq> s) (rows df)\<rparr>)"
  by (simp add: select_ne_def getitem_def filter_zip_map)

lemma select_ne_columns: "select_ne df c s = Inr df' \<Longrightarrow> columns df' = columns df"
  by (auto simp: select_ne_def split: if_splits)

text \<open>
  Two of the new names are \<open>Rk\<close> and a third is not: the row filter raises.
\<close>

lemma flatten_multiindex_columns_raises:
  "flatten_multiindex_columns
     (MultiIndexed [(''Unnamed: 0_level_0'', ''Rk''), (''Performance'', ''Gls''),
                    (''Unnamed: 2_level_0'', ''Rk'')]
        [[Num 1, Num 2, Num 1], [Str ''Rk'', Str ''Gls'', Str ''Rk'']])
   = Inl PandasError"
  by (simp add: flatten_multiindex_columns_def flat_name_def py_strip_def isspace_def
      select_ne_def Let_def)

text \<open>
  The empty sub-label that pandas itself gives a column added to a two-level frame: the
  specification's rule gives the group label followed by a space, the code trims it.
\<close>

theorem flatten_multiindex_columns_counterexample:
  "flatten_multiindex_columns (MultiIndexed [(''Performance'', '''')] [[Num 1]])
     = Inr (Plain \<lparr>columns = [''Performance''], rows = [[Num 1]]\<rparr>)
   \<and> map flat_name_spec [(''Performance'', '''')] = [''Performance '']"
  by (simp add: flatten_multiindex_columns_def flat_name_def flat_name_spec_def py_strip_def
      isspace_def Let_def)

text \<open>
  C6, amended. For a table with a two-level header, whenever the Column Normalizer
  returns a table, and it does when at most one of the new names is \<open>Rk\<close>, each column
  is renamed to the sub-label alone when the group label contains the placeholder marker,
  and otherwise to the group label, a space and the sub-label, in both cases with the
  whitespace at the two ends of the new name removed; so for labels that are not empty and
  have no whitespace at their ends the new name is exactly the one of the rule. (With one
  \<open>Rk\<close> column, the rows whose \<open>Rk\<close> cell is the string \<open>Rk\<close> are dropped.) For a
  table whose header is not two-level the output equals the input, whatever its columns
  and rows are. Nothing is said of a two-level table several of whose new names are
  \<open>Rk\<close>.
\<close>

theorem flatten_multiindex_columns_names:
  "flatten_multiindex_columns (Plain df) = Inr (Plain df)
   \<and> (count_list (map (\<lambda>col. py_strip (flat_name_spec col)) cols) ''Rk'' \<le> 1 \<longrightarrow>
        flatten_multiindex_columns (MultiIndexed cols rs)
          = (let names = map (\<lambda>col. py_strip (flat_name_spec col)) cols
             in Inr (Plain \<lparr>columns = names,
                            rows = (if ''Rk'' \<in> set names
                                    then filter (\<lambda>r. row_cell names r ''Rk'' \<noteq> Str ''Rk'') rs
                                    else rs)\<rparr>)))
   \<and> (\<forall>out. flatten_multiindex_columns (MultiIndexed cols rs) = Inr out \<longrightarrow>
          (\<exists>rs'. out = Plain \<lparr>columns = map (\<lambda>col. py_strip (flat_name_spec col)) cols,
                               rows = rs'\<rparr>))
   \<and> ((\<forall>col\<in>set cols. trimmed (fst col) \<and> trimmed (snd col))
        \<longrightarrow> map (\<lambda>col. py_strip (flat_name_spec col)) cols = map flat_name_spec cols)"
proof (intro conjI impI allI)
  let ?names = "map (\<lambda>col. py_strip (flat_name_spec col)) cols"
  let ?df = "\<lparr>columns = ?names, rows = rs\<rparr>"
  show "flatten_multiindex_columns (Plain df) = Inr (Plain df)"
    by (simp add: flatten_multiindex_columns_def)
  {
    assume le: "count_list ?names ''Rk'' \<le> 1"
    show "flatten_multiindex_columns (MultiIndexed cols rs)
          = (let names = ?names
             in Inr (Plain \<lparr>columns = names,
                            rows = (if ''Rk'' \<in> set names
                                    then filter (\<lambda>r. row_cell names r ''Rk'' \<noteq> Str ''Rk'') rs
                                    else rs)\<rparr>))"
    proof (cases "''Rk'' \<in> set ?names")
      case True
      then have "count_list ?names ''Rk'' \<noteq> 0" by (simp only: count_list_0_iff) simp
      with le have "count_list (columns ?df) ''Rk'' = 1" by simp
      from select_ne_once [OF this, of "Str ''Rk''"] True show ?thesis
        by (simp add: flatten_multiindex_columns_def Let_def flat_name_strip)
    next
      case False
      then show ?thesis
        by (simp add: flatten_multiindex_columns_def Let_def flat_name_strip)
    qed
  }
  {
    fix out
    assume r: "flatten_multiindex_columns (MultiIndexed cols rs) = Inr out"
    show "\<exists>rs'. out = Plain \<lparr>columns = ?names, rows = rs'\<rparr>"
    proof (cases "''Rk'' \<in> set ?names")
      case True
      with r obtain df' where s: "select_ne ?df ''Rk'' (Str ''Rk'') = Inr df'" and o: "out = Plain df'"
        by (auto simp: flatten_multiindex_columns_def Let_def flat_name_strip split: sum.splits)
      from select_ne_columns [OF s] have "df' = \<lparr>columns = ?names, rows = rows df'\<rparr>"
        by (cases df') simp
      with o show ?thesis by blast
    next
      case False
      with r have "out = Plain ?df"
        by (simp add: flatten_multiindex_columns_def Let_def flat_name_strip)
      then show ?thesis by blast
    qed
  }
  assume "\<forall>col\<in>set cols. trimmed (fst col) \<and> trimmed (snd col)"
  then show "?names = map flat_name_spec cols"
    by (intro map_cong refl py_strip_trimmed trimmed_flat_name_spec) auto
qed

theorem flatten_multiindex_columns_names_witness:
  "flatten_multiindex_columns
     (MultiIndexed [(''Unnamed: 0_level_0'', ''Rk''), (''Performance'', ''Gls'')]
        [[Num 1, Num 2], [Str ''Rk'', Str ''Gls'']])
   = Inr (Plain \<lparr>columns = [''Rk'', ''Performance Gls''], rows = [[Num 1, Num 2]]\<rparr>)"
proof -
  let ?cols = "[(''Unnamed: 0_level_0'', ''Rk''), (''Performance'', ''Gls'')]"
  have t: "\<forall>col\<in>set ?cols. trimmed (fst col) \<and> trimmed (snd col)"
    by (simp add: trimmed_def isspace_def)
  have s: "map flat_name_spec ?cols = [''Rk'', ''Performance Gls'']"
    by (simp add: flat_name_spec_def)
  note T = flatten_multiindex_columns_names
    [of "\<lparr>columns = [], rows = []\<rparr>" ?cols "[[Num 1, Num 2], [Str ''Rk'', Str ''Gls'']]"]
  from T t have e: "map (\<lambda>col. py_strip (flat_name_spec col)) ?cols = map flat_name_spec ?cols"
    by blast
  have c: "count_list (map (\<lambda>col. py_strip (flat_name_spec col)) ?cols) ''Rk'' \<le> 1"
    unfolding e s by simp
  have "flatten_multiindex_columns (MultiIndexed ?cols [[Num 1, Num 2], [Str ''Rk'', Str ''Gls'']])
       = (let names = map (\<lambda>col. py_strip (flat_name_spec col)) ?cols
          in Inr (Plain \<lparr>columns = names,
                    rows = (if ''Rk'' \<in> set names
                            then filter (\<lambda>r. row_cell names r ''Rk'' \<noteq> Str ''Rk'')
                                   [[Num 1, Num 2], [Str ''Rk'', Str ''Gls'']]
                            else [[Num 1, Num 2], [Str ''Rk'', Str ''Gls'']])\<rparr>))"
    using conjunct1 [OF conjunct2 [OF T]] c by (rule mp)
  then show ?thesis
    unfolding e s by (simp add: Let_def row_cell_def)
qed


subsection \<open>Row Enricher: reading back an assigned column\<close>






subsection \<open>Row Enricher: the identifier-keyed map\<close>













subsection \<open>Row Enricher: the last pair of a player identifier wins\<close>




end
